theory Spec2Isabelle
  imports Complex_Main
begin

section \<open>Bulls and Cows: the engine of game_logic.py\<close>

text \<open>
  The development embeds class \<open>BullsAndCowsGame\<close> of \<open>game_logic.py\<close>.
  Conventions of the embedding:
  \<^item> Python integers are \<open>int\<close>; a code is an \<open>int list\<close>.
  \<^item> A Python string is a list of characters. The characters of the model are the code
    points U+0000 to U+00FF (one \<open>char\<close> each), so \<open>length\<close> counts code points as
    Python's \<open>len\<close> does. Statements quantified over all strings range over these.
  \<^item> Python floats are modelled as real numbers: \<open>math.log2\<close> is the binary logarithm and
    \<open>round(x, 2)\<close> rounds the real \<open>100 * x\<close> to the nearest integer, ties to even.
  \<^item> An exception is a value \<open>Inl e\<close>. A method that can raise returns its outcome
    together with the object as the call leaves it.
  \<^item> \<open>random.sample(range(10), 4)\<close> is not computed: the drawn list is an argument of
    the constructor and of \<open>reset_game\<close>, constrained by \<open>sample_range10_4\<close>.
  \<^item> The \<open>print\<close> calls write to standard output only and are left out.
\<close>

subsection \<open>Built-in functions of Python used by the engine\<close>

datatype error = ValueError

text \<open>\<open>str(n)\<close> for an integer: decimal digits without leading zeros, a minus sign first
  when \<open>n\<close> is negative.\<close>

definition digit_char :: "int \<Rightarrow> char" where
  "digit_char d = char_of (48 + d)"

function str_pos :: "int \<Rightarrow> string" where
  "str_pos n = (if n < 10 then [digit_char n] else str_pos (n div 10) @ [digit_char (n mod 10)])"
  by pat_completeness auto
termination
  by (relation "measure nat") auto

declare str_pos.simps [simp del]

definition str :: "int \<Rightarrow> string" where
  "str n = (if n < 0 then CHR ''-'' # str_pos (- n) else str_pos n)"

text \<open>\<open>s.zfill(w)\<close> on a string without sign: zeros on the left up to width \<open>w\<close>.
  (With a leading sign Python puts the zeros after it; \<open>range\<close> yields no negative number.)\<close>

definition zfill :: "string \<Rightarrow> nat \<Rightarrow> string" where
  "zfill s w = (case s of
       c # cs \<Rightarrow> if c = CHR ''+'' \<or> c = CHR ''-''
                 then c # replicate (w - length s) (CHR ''0'') @ cs
                 else replicate (w - length s) (CHR ''0'') @ s
     | [] \<Rightarrow> replicate w (CHR ''0''))"

text \<open>\<open>range(n)\<close>, as the list it iterates over.\<close>

definition py_range :: "int \<Rightarrow> int list" where
  "py_range n = [0..n - 1]"

text \<open>\<open>c.isdigit()\<close> for one character: true for the characters whose Unicode
  Numeric\_Type is Decimal or Digit. Below U+0100 these are \<open>0\<close> to \<open>9\<close> (U+0030 to U+0039)
  and the superscripts two, three and one (U+00B2, U+00B3, U+00B9).\<close>

definition isdigit_char :: "char \<Rightarrow> bool" where
  "isdigit_char c = (let n = (of_char c :: nat) in
     (48 \<le> n \<and> n \<le> 57) \<or> n = 178 \<or> n = 179 \<or> n = 185)"

text \<open>\<open>s.isdigit()\<close>: every character is a digit and there is at least one.\<close>

definition isdigit :: "string \<Rightarrow> bool" where
  "isdigit s = (s \<noteq> [] \<and> list_all isdigit_char s)"

text \<open>\<open>int(c)\<close> for a string of one character: the value of a decimal digit, and
  \<open>ValueError\<close> for every other character (the superscript digits included).\<close>

definition py_int :: "char \<Rightarrow> error + int" where
  "py_int c = (let n = (of_char c :: int) in
     if 48 \<le> n \<and> n \<le> 57 then Inr (n - 48) else Inl ValueError)"

text \<open>\<open>list(map(int, s))\<close>: the first character that \<open>int\<close> refuses raises.\<close>

fun map_int :: "string \<Rightarrow> error + int list" where
  "map_int [] = Inr []"
| "map_int (c # cs) =
     (case py_int c of
        Inl e \<Rightarrow> Inl e
      | Inr d \<Rightarrow> (case map_int cs of Inl e \<Rightarrow> Inl e | Inr ds \<Rightarrow> Inr (d # ds)))"

text \<open>A list comprehension \<open>[f(x) for x in xs]\<close> whose element expression can raise.\<close>

fun comprehension :: "('a \<Rightarrow> error + 'b) \<Rightarrow> 'a list \<Rightarrow> error + 'b list" where
  "comprehension f [] = Inr []"
| "comprehension f (x # xs) =
     (case f x of
        Inl e \<Rightarrow> Inl e
      | Inr y \<Rightarrow> (case comprehension f xs of Inl e \<Rightarrow> Inl e | Inr ys \<Rightarrow> Inr (y # ys)))"

text \<open>\<open>round(x, 2)\<close> and, in general, \<open>round(x, n)\<close>.\<close>

definition round_half_even :: "real \<Rightarrow> int" where
  "round_half_even x = (let f = \<lfloor>x\<rfloor>; d = x - of_int f in
     if d < 1 / 2 then f else if 1 / 2 < d then f + 1 else if even f then f else f + 1)"

definition py_round :: "real \<Rightarrow> nat \<Rightarrow> real" where
  "py_round x n = of_int (round_half_even (x * 10 ^ n)) / 10 ^ n"

text \<open>The lists \<open>sample(range(10), 4)\<close> can return: four distinct digits, in any order.\<close>

definition sample_range10_4 :: "int list \<Rightarrow> bool" where
  "sample_range10_4 xs = (length xs = 4 \<and> distinct xs \<and> list_all (\<lambda>d. 0 \<le> d \<and> d \<le> 9) xs)"

subsection \<open>The class BullsAndCowsGame\<close>

record BullsAndCowsGame =
  secret :: "int list"
  attempts :: int
  previous_guesses :: "int list list"
  all_possible_guesses :: "int list list"
  valid_guesses :: "int list list"

text \<open>What \<open>process_guess\<close> returns: a string (the validation message or the
  congratulation) or the tuple \<open>(bulls, cows, mutual_information, entropy)\<close>.\<close>

datatype outcome = Message string | Feedback int int real real

definition calculate_bulls_and_cows :: "BullsAndCowsGame \<Rightarrow> int list \<Rightarrow> int \<times> int" where
  "calculate_bulls_and_cows self guess =
     (let bulls = sum_list (map (\<lambda>(s, g). if s = g then 1 else 0) (zip (secret self) guess));
          cows = int (card (set (secret self) \<inter> set guess)) - bulls
      in (bulls, cows))"

text \<open>The comprehension of \<open>generate_possible_guesses\<close>: its condition
  \<open>len(set(str(i))) == 4\<close> is the \<open>filter\<close>, its element expression
  \<open>list(map(int, str(i).zfill(4)))\<close> the function applied to what passes.\<close>

definition generate_possible_guesses :: "error + int list list" where
  "generate_possible_guesses =
     comprehension (\<lambda>i. map_int (zfill (str i) 4))
       (filter (\<lambda>i. card (set (str i)) = 4) (py_range 10000))"

text \<open>The parameter \<open>guess\<close> is not read by the method; the candidates are scored
  by \<open>calculate_bulls_and_cows\<close>, that is against \<open>self.secret\<close>, and taken from
  \<open>all_possible_guesses\<close>.\<close>

definition update_valid_guesses ::
  "BullsAndCowsGame \<Rightarrow> int list \<Rightarrow> int \<Rightarrow> int \<Rightarrow> BullsAndCowsGame" where
  "update_valid_guesses self guess bulls cows =
     self\<lparr>valid_guesses :=
       filter (\<lambda>valid_guess. calculate_bulls_and_cows self valid_guess = (bulls, cows))
         (all_possible_guesses self)\<rparr>"

definition calculate_entropy :: "BullsAndCowsGame \<Rightarrow> real" where
  "calculate_entropy self =
     (let remaining_possibilities = length (valid_guesses self);
          entropy = (if remaining_possibilities > 0
                     then log 2 (real remaining_possibilities) else 0)
      in py_round entropy 2)"

definition calculate_mutual_information :: "BullsAndCowsGame \<Rightarrow> real \<Rightarrow> real" where
  "calculate_mutual_information self previous_entropy =
     (let current_entropy = calculate_entropy self;
          mutual_info = previous_entropy - current_entropy
      in py_round mutual_info 2)"

text \<open>\<open>process_guess\<close>: the validation returns the message and changes nothing; the
  conversion \<open>list(map(int, guess))\<close> comes before any assignment, so a \<open>ValueError\<close>
  leaves the object as it was. \<open>previous_guesses\<close> is not assigned.\<close>

definition process_guess ::
  "BullsAndCowsGame \<Rightarrow> string \<Rightarrow> (error + outcome) \<times> BullsAndCowsGame" where
  "process_guess self guess =
     (if length guess \<noteq> 4 \<or> \<not> isdigit guess \<or> card (set guess) \<noteq> 4
      then (Inr (Message ''Invalid Input: Enter 4 unique digits!''), self)
      else case map_int guess of
        Inl e \<Rightarrow> (Inl e, self)
      | Inr digits \<Rightarrow>
          (let self1 = self\<lparr>attempts := attempts self + 1\<rparr>;
               (bulls, cows) = calculate_bulls_and_cows self1 digits;
               previous_entropy = calculate_entropy self1;
               self2 = update_valid_guesses self1 digits bulls cows;
               mutual_information = calculate_mutual_information self2 previous_entropy;
               entropy = calculate_entropy self2
           in if bulls = 4
              then (Inr (Message (''Congratulations! You guessed the number in ''
                                    @ str (attempts self2) @ '' attempts!'')), self2)
              else (Inr (Feedback bulls cows mutual_information entropy), self2)))"

definition reset_game :: "BullsAndCowsGame \<Rightarrow> int list \<Rightarrow> BullsAndCowsGame" where
  "reset_game self sample =
     self\<lparr>secret := sample, attempts := 0, previous_guesses := [],
          valid_guesses := all_possible_guesses self\<rparr>"

text \<open>The constructor \<open>__init__\<close>; it raises when \<open>generate_possible_guesses\<close> does.\<close>

definition init :: "int list \<Rightarrow> error + BullsAndCowsGame" where
  "init sample =
     (case generate_possible_guesses of
        Inl e \<Rightarrow> Inl e
      | Inr guesses \<Rightarrow>
          Inr \<lparr>secret = sample, attempts = 0, previous_guesses = [],
               all_possible_guesses = guesses, valid_guesses = guesses\<rparr>)"

subsection \<open>Auxiliary definitions for the proofs\<close>

text \<open>The list \<open>generate_possible_guesses\<close> returns, written as four nested loops over
  the digits: the codes of the numbers 1000 to 9999 whose digits are distinct
  (\<open>generate_possible_guesses_closed\<close> below proves the equality).\<close>

definition code_if_distinct :: "int \<Rightarrow> int \<Rightarrow> int \<Rightarrow> int \<Rightarrow> int list list" where
  "code_if_distinct a b c d = (if distinct [a, b, c, d] then [[a, b, c, d]] else [])"

definition digits_0_9 :: "int list" where
  "digits_0_9 = [0..9]"

definition codes_1000_9999 :: "int list list" where
  "codes_1000_9999 =
     concat (map (\<lambda>a. concat (map (\<lambda>b. concat (map (\<lambda>c. concat (map (\<lambda>d.
       code_if_distinct a b c d) digits_0_9)) digits_0_9)) digits_0_9)) [1..9])"

definition number4 :: "int \<Rightarrow> int \<Rightarrow> int \<Rightarrow> int \<Rightarrow> int" where
  "number4 a b c d = 10 * (10 * (10 * a + b) + c) + d"

text \<open>The number of codes of \<open>codes_1000_9999\<close> that satisfy a predicate.\<close>

definition count4 :: "(int list \<Rightarrow> bool) \<Rightarrow> nat" where
  "count4 Q = sum_list (map (\<lambda>a. sum_list (map (\<lambda>b. sum_list (map (\<lambda>c. sum_list (map (\<lambda>d.
       if distinct [a, b, c, d] then if Q [a, b, c, d] then 1 else 0 else 0) digits_0_9)) digits_0_9)) digits_0_9)) [1..9])"

text \<open>The entropy before rounding: the binary logarithm of a list's length, 0 for the
  empty list.\<close>

definition log2_size :: "'a list \<Rightarrow> real" where
  "log2_size xs = (if 0 < length xs then log 2 (real (length xs)) else 0)"

text \<open>The object the constructor builds (\<open>init_new_game\<close> below), and the states a
  session can reach: construction, then any calls of \<open>process_guess\<close> and
  \<open>reset_game\<close>.\<close>

definition new_game :: "int list \<Rightarrow> BullsAndCowsGame" where
  "new_game sample =
     \<lparr>secret = sample, attempts = 0, previous_guesses = [],
      all_possible_guesses = codes_1000_9999, valid_guesses = codes_1000_9999\<rparr>"

inductive reachable :: "BullsAndCowsGame \<Rightarrow> bool" where
  start: "sample_range10_4 sample \<Longrightarrow> init sample = Inr s \<Longrightarrow> reachable s"
| guess: "reachable s \<Longrightarrow> reachable (snd (process_guess s g))"
| reset: "reachable s \<Longrightarrow> sample_range10_4 sample \<Longrightarrow> reachable (reset_game s sample)"



text \<open>The string of the four characters 1, 2, 3 and superscript two (U+00B2).\<close>

definition guess_123_sup2 :: string where
  "guess_123_sup2 = [CHR ''1'', CHR ''2'', CHR ''3'', CHR 0xB2]"

section \<open>Proofs\<close>

subsection \<open>Digits and decimal strings\<close>

lemma of_char_digit_char: "0 \<le> d \<Longrightarrow> d \<le> 9 \<Longrightarrow> (of_char (digit_char d) :: int) = 48 + d"
  by (simp add: digit_char_def)

lemma py_int_digit_char: "0 \<le> d \<Longrightarrow> d \<le> 9 \<Longrightarrow> py_int (digit_char d) = Inr d"
  by (simp add: py_int_def of_char_digit_char)

lemma digit_char_inj:
  "0 \<le> d \<Longrightarrow> d \<le> 9 \<Longrightarrow> 0 \<le> e \<Longrightarrow> e \<le> 9 \<Longrightarrow> digit_char d = digit_char e \<longleftrightarrow> d = e"
  by (metis of_char_digit_char add_left_cancel)

lemma digit_char_not_sign:
  assumes "0 \<le> d" "d \<le> 9"
  shows "digit_char d \<noteq> CHR ''+'' \<and> digit_char d \<noteq> CHR ''-''"
proof -
  have "(of_char (digit_char d) :: int) = 48 + d" using assms by (rule of_char_digit_char)
  then have "(of_char (digit_char d) :: int) \<noteq> of_char (CHR ''+'')"
    "(of_char (digit_char d) :: int) \<noteq> of_char (CHR ''-'')"
    using assms by simp_all
  then show ?thesis by auto
qed

lemma str_pos_digit: "d \<le> 9 \<Longrightarrow> str_pos d = [digit_char d]"
  by (simp add: str_pos.simps)

lemma str_pos_step:
  "1 \<le> n \<Longrightarrow> 0 \<le> d \<Longrightarrow> d \<le> 9 \<Longrightarrow> str_pos (10 * n + d) = str_pos n @ [digit_char d]"
  by (subst str_pos.simps) simp

lemma length_str_pos: "n < 10 ^ k \<Longrightarrow> 0 < k \<Longrightarrow> length (str_pos n) \<le> k"
proof (induction k arbitrary: n)
  case 0
  then show ?case by simp
next
  case (Suc k)
  show ?case
  proof (cases "n < 10")
    case True
    then show ?thesis by (simp add: str_pos.simps)
  next
    case False
    then have "k > 0" using Suc.prems by (cases k) auto
    moreover have "n div 10 < 10 ^ k" using Suc.prems by simp
    ultimately have "length (str_pos (n div 10)) \<le> k" using Suc.IH by blast
    then show ?thesis using False by (subst str_pos.simps) simp
  qed
qed

lemma str_number4:
  assumes "1 \<le> a" "a \<le> 9" "0 \<le> b" "b \<le> 9" "0 \<le> c" "c \<le> 9" "0 \<le> d" "d \<le> 9"
  shows "str (number4 a b c d) = [digit_char a, digit_char b, digit_char c, digit_char d]"
proof -
  have "str_pos a = [digit_char a]" using assms by (simp add: str_pos_digit)
  moreover have "str_pos (10 * a + b) = str_pos a @ [digit_char b]"
    using assms by (intro str_pos_step) simp_all
  moreover have "str_pos (10 * (10 * a + b) + c) = str_pos (10 * a + b) @ [digit_char c]"
    using assms by (intro str_pos_step) simp_all
  moreover have "str_pos (number4 a b c d) = str_pos (10 * (10 * a + b) + c) @ [digit_char d]"
    unfolding number4_def using assms by (intro str_pos_step) simp_all
  moreover have "0 \<le> number4 a b c d" unfolding number4_def using assms by simp
  ultimately show ?thesis by (simp add: str_def)
qed

lemma card_set_eq_length: "card (set xs) = length xs \<longleftrightarrow> distinct xs"
  using card_distinct distinct_card by blast

lemma distinct_map_digit_char:
  "\<forall>d \<in> set ds. 0 \<le> d \<and> d \<le> 9 \<Longrightarrow> distinct (map digit_char ds) = distinct ds"
  by (auto simp: distinct_map inj_on_def digit_char_inj)

lemma map_int_digit_chars:
  "\<forall>d \<in> set ds. 0 \<le> d \<and> d \<le> 9 \<Longrightarrow> map_int (map digit_char ds) = Inr ds"
  by (induction ds) (simp_all add: py_int_digit_char)

text \<open>What the comprehension of \<open>generate_possible_guesses\<close> does at a number of four
  digits: it keeps the number when its digits are distinct and turns it into its digits.\<close>

lemma number4_kept:
  assumes "1 \<le> a" "a \<le> 9" "0 \<le> b" "b \<le> 9" "0 \<le> c" "c \<le> 9" "0 \<le> d" "d \<le> 9"
  shows "card (set (str (number4 a b c d))) = 4 \<longleftrightarrow> distinct [a, b, c, d]"
    and "map_int (zfill (str (number4 a b c d)) 4) = Inr [a, b, c, d]"
proof -
  let ?ds = "[a, b, c, d]"
  have s: "str (number4 a b c d) = map digit_char ?ds"
    using assms by (simp add: str_number4)
  have dig: "\<forall>x \<in> set ?ds. 0 \<le> x \<and> x \<le> 9" using assms by simp
  have "length (map digit_char ?ds) = 4" by simp
  then have "card (set (map digit_char ?ds)) = 4 \<longleftrightarrow> distinct (map digit_char ?ds)"
    using card_set_eq_length[of "map digit_char ?ds"] by metis
  then show "card (set (str (number4 a b c d))) = 4 \<longleftrightarrow> distinct ?ds"
    unfolding s using distinct_map_digit_char[OF dig] by (simp only:)
  have "digit_char a \<noteq> CHR ''+'' \<and> digit_char a \<noteq> CHR ''-''"
    using assms by (intro digit_char_not_sign) simp_all
  then have "zfill (map digit_char ?ds) 4 = map digit_char ?ds"
    by (simp add: zfill_def)
  then show "map_int (zfill (str (number4 a b c d)) 4) = Inr ?ds"
    unfolding s using map_int_digit_chars[OF dig] by simp
qed

lemma str_below_1000:
  assumes "0 \<le> i" "i \<le> 999"
  shows "card (set (str i)) \<noteq> 4"
proof -
  have "length (str_pos i) \<le> 3" using assms length_str_pos[of i 3] by simp
  moreover have "card (set (str_pos i)) \<le> length (str_pos i)" by (rule card_length)
  ultimately show ?thesis using assms by (simp add: str_def)
qed

subsection \<open>The candidate universe in closed form\<close>

lemma upto_0_9: "[0..9] = [0, 1, 2, 3, 4, 5, 6, 7, 8, 9 :: int]"
  by (simp add: upto_rec1[of 0 9] upto_rec1[of 1 9])

lemma upto_decade: "[10 * i .. 10 * i + 9] = map (\<lambda>d. 10 * i + d) digits_0_9"
  unfolding digits_0_9_def by (rule nth_equalityI) simp_all

lemma upto_decimal:
  "[10 * lo .. 10 * hi + 9] = concat (map (\<lambda>k. map (\<lambda>d. 10 * k + d) digits_0_9) [lo..hi])"
proof (induction lo hi rule: upto.induct)
  case (1 i j)
  show ?case
  proof (cases "i \<le> j")
    case True
    have "[10 * i .. 10 * j + 9] = [10 * i .. 10 * i + 9] @ [10 * (i + 1) .. 10 * j + 9]"
      using True upto_split2[of "10 * i" "10 * i + 9" "10 * j + 9"] by (simp add: algebra_simps)
    then show ?thesis using True 1 by (simp add: upto_rec1[of i j] upto_decade)
  next
    case False
    then show ?thesis by simp
  qed
qed

lemma concat_map_concat_map:
  "concat (map F (concat (map G xs))) = concat (map (\<lambda>x. concat (map F (G x))) xs)"
  by (induction xs) simp_all

lemma range_1000_9999:
  "[1000..9999] =
     concat (map (\<lambda>a. concat (map (\<lambda>b. concat (map (\<lambda>c. map (\<lambda>d.
       number4 a b c d) digits_0_9) digits_0_9)) digits_0_9)) [1..9])"
proof -
  have e1: "[10..99] = concat (map (\<lambda>a. map (\<lambda>b. 10 * a + b) digits_0_9) [1..9])"
    using upto_decimal[of 1 9] by (simp del: upto_rec_numeral)
  have e2: "[100..999] = concat (map (\<lambda>k. map (\<lambda>c. 10 * k + c) digits_0_9) [10..99])"
    using upto_decimal[of 10 99] by (simp del: upto_rec_numeral)
  have e3: "[1000..9999] = concat (map (\<lambda>k. map (\<lambda>d. 10 * k + d) digits_0_9) [100..999])"
    using upto_decimal[of 100 999] by (simp del: upto_rec_numeral)
  show ?thesis
    unfolding e3 e2 e1 number4_def
    by (simp only: concat_map_concat_map map_map comp_def)
qed

lemma comprehension_append:
  "comprehension f xs = Inr us \<Longrightarrow> comprehension f ys = Inr vs \<Longrightarrow>
   comprehension f (xs @ ys) = Inr (us @ vs)"
  by (induction xs arbitrary: us) (auto split: sum.splits)

lemma comprehension_concat:
  "\<forall>x \<in> set xs. comprehension f (filter P (F x)) = Inr (G x) \<Longrightarrow>
   comprehension f (filter P (concat (map F xs))) = Inr (concat (map G xs))"
  by (induction xs) (simp_all add: comprehension_append)

lemma comprehension_leaf:
  "\<forall>x \<in> set xs. (P (h x) \<longleftrightarrow> Q x) \<and> f (h x) = Inr (g x) \<Longrightarrow>
   comprehension f (filter P (map h xs)) = Inr (concat (map (\<lambda>x. if Q x then [g x] else []) xs))"
  by (induction xs) simp_all

lemma set_digits_0_9: "x \<in> set digits_0_9 \<longleftrightarrow> 0 \<le> x \<and> x \<le> 9"
  by (simp add: digits_0_9_def del: upto_rec_numeral)

lemma generate_possible_guesses_closed: "generate_possible_guesses = Inr codes_1000_9999"
proof -
  let ?P = "\<lambda>i. card (set (str i)) = 4"
  let ?f = "\<lambda>i. map_int (zfill (str i) 4)"
  define lo :: "int list" where "lo = [0..999]"
  define hi :: "int list" where "hi = [1000..9999]"
  have split: "py_range 10000 = lo @ hi"
    using upto_split2[of 0 999 9999] by (simp add: py_range_def lo_def hi_def del: upto_rec_numeral)
  have "\<forall>i \<in> set lo. 0 \<le> i \<and> i \<le> 999"
    by (simp add: lo_def del: upto_rec_numeral)
  then have low: "filter ?P lo = []"
    using str_below_1000 by (simp add: filter_empty_conv)
  have leaf: "comprehension ?f (filter ?P (map (\<lambda>d. number4 a b c d) digits_0_9))
      = Inr (concat (map (\<lambda>d. code_if_distinct a b c d) digits_0_9))"
    if "1 \<le> a \<and> a \<le> 9" "0 \<le> b \<and> b \<le> 9" "0 \<le> c \<and> c \<le> 9" for a b c
    unfolding code_if_distinct_def
    by (rule comprehension_leaf) (use that in \<open>simp add: set_digits_0_9 number4_kept\<close>)
  have lev_c: "comprehension ?f (filter ?P (concat (map (\<lambda>c. map (\<lambda>d. number4 a b c d) digits_0_9) digits_0_9)))
      = Inr (concat (map (\<lambda>c. concat (map (\<lambda>d. code_if_distinct a b c d) digits_0_9)) digits_0_9))"
    if "1 \<le> a \<and> a \<le> 9" "0 \<le> b \<and> b \<le> 9" for a b
    by (rule comprehension_concat) (use that leaf in \<open>simp add: set_digits_0_9\<close>)
  have lev_b: "comprehension ?f (filter ?P (concat (map (\<lambda>b. concat (map (\<lambda>c. map (\<lambda>d. number4 a b c d) digits_0_9) digits_0_9)) digits_0_9)))
      = Inr (concat (map (\<lambda>b. concat (map (\<lambda>c. concat (map (\<lambda>d. code_if_distinct a b c d) digits_0_9)) digits_0_9)) digits_0_9))"
    if "1 \<le> a \<and> a \<le> 9" for a
    by (rule comprehension_concat) (use that lev_c in \<open>simp add: set_digits_0_9\<close>)
  have "comprehension ?f (filter ?P hi) = Inr codes_1000_9999"
    unfolding hi_def range_1000_9999 codes_1000_9999_def
    by (rule comprehension_concat) (use lev_b in \<open>simp del: upto_rec_numeral\<close>)
  then show ?thesis
    by (simp add: generate_possible_guesses_def split low)
qed

subsection \<open>Counting candidates\<close>

lemma length_filter_codes: "length (filter Q codes_1000_9999) = count4 Q"
  unfolding codes_1000_9999_def count4_def code_if_distinct_def
  by (simp add: filter_concat length_concat comp_def if_distrib[of "filter Q"] if_distrib[of length] cong: if_cong del: upto_rec_numeral)

lemma card_inter_lists:
  "card (set xs \<inter> set ys) = length (filter (\<lambda>x. x \<in> set ys) (remdups xs))"
proof -
  have "set xs \<inter> set ys = set (filter (\<lambda>x. x \<in> set ys) (remdups xs))" by auto
  moreover have "distinct (filter (\<lambda>x. x \<in> set ys) (remdups xs))" by simp
  ultimately show ?thesis by (simp only: distinct_card)
qed

lemma bulls_and_cows_code:
  "calculate_bulls_and_cows self guess =
     (let bulls = sum_list (map (\<lambda>(s, g). if s = g then 1 else 0) (zip (secret self) guess));
          cows = int (length (filter (\<lambda>x. x \<in> set guess) (remdups (secret self)))) - bulls
      in (bulls, cows))"
  by (simp only: calculate_bulls_and_cows_def card_inter_lists)

lemma upto_1_9: "[1..9] = [1, 2, 3, 4, 5, 6, 7, 8, 9 :: int]"
  by (simp add: upto_rec1[of 1 9])

lemma length_codes_1000_9999: "length codes_1000_9999 = 4536"
proof -
  have "length (filter (\<lambda>_. True) codes_1000_9999) = 4536"
    unfolding length_filter_codes count4_def by (simp add: upto_0_9 upto_1_9 digits_0_9_def)
  then show ?thesis by simp
qed

lemma bc_1234:
  "secret self = [1, 2, 3, 4] \<Longrightarrow> calculate_bulls_and_cows self [a, b, c, d] =
     (of_bool (1 = a) + of_bool (2 = b) + of_bool (3 = c) + of_bool (4 = d),
      (of_bool (1 = a \<or> 1 = b \<or> 1 = c \<or> 1 = d) + of_bool (2 = a \<or> 2 = b \<or> 2 = c \<or> 2 = d)
       + of_bool (3 = a \<or> 3 = b \<or> 3 = c \<or> 3 = d) + of_bool (4 = a \<or> 4 = b \<or> 4 = c \<or> 4 = d))
      - (of_bool (1 = a) + of_bool (2 = b) + of_bool (3 = c) + of_bool (4 = d)))"
  by (simp add: bulls_and_cows_code Let_def of_bool_def)

lemma class_2_2:
  "secret s = [1, 2, 3, 4] \<Longrightarrow>
   length (filter (\<lambda>v. calculate_bulls_and_cows s v = (2, 2)) codes_1000_9999) = 6"
  unfolding length_filter_codes count4_def
  by (simp add: upto_0_9 upto_1_9 digits_0_9_def bc_1234)

lemma class_0_4:
  "secret s = [1, 2, 3, 4] \<Longrightarrow>
   length (filter (\<lambda>v. calculate_bulls_and_cows s v = (0, 4)) codes_1000_9999) = 9"
  unfolding length_filter_codes count4_def
  by (simp add: upto_0_9 upto_1_9 digits_0_9_def bc_1234)

subsection \<open>Logarithms and rounding\<close>

lemma log2_gt:
  assumes "0 < q" "(2::nat) ^ p < n ^ q" shows "real p / real q < log 2 (real n)"
proof -
  have n: "0 < n" using assms by (cases n) (simp_all add: power_0_left)
  have "real p < log 2 (real (n ^ q))" using assms(2) by (rule less_log2_of_power)
  then have "real p < real q * log 2 (real n)" using n by (simp add: log_nat_power)
  then show ?thesis using assms(1) by (simp add: field_simps)
qed

lemma log2_lt:
  assumes "0 < q" "0 < n" "n ^ q < (2::nat) ^ p" shows "log 2 (real n) < real p / real q"
proof -
  have "log 2 (real (n ^ q)) < real p" using assms(3,2) by (intro log2_of_power_less) simp_all
  then have "real q * log 2 (real n) < real p" using assms(2) by (simp add: log_nat_power)
  then show ?thesis using assms(1) by (simp add: field_simps)
qed

lemma round_half_even_eq:
  assumes "real_of_int k - 1 / 2 < x" "x < real_of_int k + 1 / 2"
  shows "round_half_even x = k"
proof -
  consider "\<lfloor>x\<rfloor> = k" | "\<lfloor>x\<rfloor> = k - 1" using assms by linarith
  then show ?thesis
  proof cases
    case 1
    then have "x - of_int \<lfloor>x\<rfloor> < 1 / 2" using assms by simp
    then show ?thesis using 1 by (simp add: round_half_even_def Let_def)
  next
    case 2
    then have "1 / 2 < x - of_int \<lfloor>x\<rfloor>" using assms by simp
    then show ?thesis using 2 by (simp add: round_half_even_def Let_def)
  qed
qed

lemma py_round_2_eq:
  assumes "(2 * real_of_int k - 1) / 200 < x" "x < (2 * real_of_int k + 1) / 200"
  shows "py_round x 2 = real_of_int k / 100"
proof -
  have "round_half_even (x * 10 ^ 2) = k"
    using assms by (intro round_half_even_eq) (simp_all add: field_simps)
  then show ?thesis by (simp add: py_round_def)
qed

lemma log2_3_bounds: "19 / 12 < log 2 3" "log 2 3 < 317 / 200"
proof -
  have "(2::nat) ^ 19 < 3 ^ 12" by simp
  then show "19 / 12 < log 2 3" using log2_gt[of 12 19 3] by simp
  have "(3::nat) ^ 200 < 2 ^ 317" by simp
  then show "log 2 3 < 317 / 200" using log2_lt[of 200 3 317] by simp
qed

lemma log2_9: "log 2 9 = 2 * log 2 3"
  using log_nat_power[of 3 2 2] by simp

lemma log2_6: "log 2 6 = 1 + log 2 3"
  using log_mult[of 2 3 2] by simp

lemma entropy_9: "py_round (log 2 9) 2 = 317 / 100"
  using log2_3_bounds py_round_2_eq[of 317 "log 2 9"] by (simp add: log2_9)

lemma entropy_6: "py_round (log 2 6) 2 = 258 / 100"
  using log2_3_bounds py_round_2_eq[of 258 "log 2 6"] by (simp add: log2_6)

lemma unrounded_9_6: "py_round (log 2 9 - log 2 6) 2 = 58 / 100"
  using log2_3_bounds py_round_2_eq[of 58 "log 2 9 - log 2 6"] by (simp add: log2_9 log2_6)

lemma rounded_9_6: "py_round (317 / 100 - 258 / 100) 2 = 59 / 100"
  using py_round_2_eq[of 59 "317 / 100 - 258 / 100"] by simp

lemma rounded_6_9: "py_round (258 / 100 - 317 / 100) 2 = - 59 / 100"
  using py_round_2_eq[of "-59" "258 / 100 - 317 / 100"] by simp

lemma entropy_4536: "py_round (log 2 4536) 2 = 1215 / 100"
proof -
  have "(2::nat) ^ 413 < 4536 ^ 34" by simp
  then have "413 / 34 < log 2 4536" using log2_gt[of 34 413 4536] by simp
  moreover have "(4536::nat) ^ 13 < 2 ^ 158" by simp
  then have "log 2 4536 < 158 / 13" using log2_lt[of 13 4536 158] by simp
  ultimately show ?thesis using py_round_2_eq[of 1215 "log 2 4536"] by simp
qed

subsection \<open>One call of process_guess\<close>

lemma init_new_game: "init sample = Inr (new_game sample)"
  by (simp add: init_def generate_possible_guesses_closed new_game_def)

lemma calculate_entropy_log2_size:
  "calculate_entropy s = py_round (log2_size (valid_guesses s)) 2"
  by (simp add: calculate_entropy_def log2_size_def Let_def)

lemma bulls_and_cows_secret:
  "secret s = secret t \<Longrightarrow> calculate_bulls_and_cows s = calculate_bulls_and_cows t"
  by (rule ext) (simp add: calculate_bulls_and_cows_def)

lemma process_guess_invalid:
  "length g \<noteq> 4 \<or> \<not> isdigit g \<or> card (set g) \<noteq> 4 \<Longrightarrow>
   process_guess s g = (Inr (Message ''Invalid Input: Enter 4 unique digits!''), s)"
  by (simp add: process_guess_def)

lemma process_guess_raises:
  "length g = 4 \<Longrightarrow> isdigit g \<Longrightarrow> card (set g) = 4 \<Longrightarrow> map_int g = Inl e \<Longrightarrow>
   process_guess s g = (Inl e, s)"
  by (simp add: process_guess_def)

lemma process_guess_accepted:
  assumes "length g = 4" "isdigit g" "card (set g) = 4" "map_int g = Inr ds"
    and "calculate_bulls_and_cows s ds = (bulls, cows)"
    and "s' = s\<lparr>attempts := attempts s + 1,
                 valid_guesses := filter (\<lambda>v. calculate_bulls_and_cows s v = (bulls, cows))
                                    (all_possible_guesses s)\<rparr>"
  shows "process_guess s g =
     (Inr (if bulls = 4
           then Message (''Congratulations! You guessed the number in ''
                           @ str (attempts s + 1) @ '' attempts!'')
           else Feedback bulls cows
                  (py_round (py_round (log2_size (valid_guesses s)) 2
                             - py_round (log2_size (valid_guesses s')) 2) 2)
                  (py_round (log2_size (valid_guesses s')) 2)), s')"
proof -
  have bc: "calculate_bulls_and_cows (s\<lparr>attempts := attempts s + 1\<rparr>) = calculate_bulls_and_cows s"
    by (rule bulls_and_cows_secret) simp
  show ?thesis
    using assms(1-5)
    by (simp add: process_guess_def bc update_valid_guesses_def calculate_mutual_information_def
        calculate_entropy_log2_size Let_def assms(6))
qed

lemma process_guess_universe:
  "all_possible_guesses (snd (process_guess s g)) = all_possible_guesses s"
  by (simp add: process_guess_def update_valid_guesses_def Let_def split: sum.splits prod.splits)

lemma process_guess_secret:
  "secret (snd (process_guess s g)) = secret s"
  by (simp add: process_guess_def update_valid_guesses_def Let_def split: sum.splits prod.splits)

lemma process_guess_history:
  "previous_guesses (snd (process_guess s g)) = previous_guesses s"
  by (simp add: process_guess_def update_valid_guesses_def Let_def split: sum.splits prod.splits)

lemma reachable_universe: "reachable s \<Longrightarrow> all_possible_guesses s = codes_1000_9999"
proof (induction rule: reachable.induct)
  case (start sample s)
  then show ?case by (auto simp: init_new_game new_game_def)
next
  case (guess s g)
  then show ?case by (simp add: process_guess_universe)
next
  case (reset s sample)
  then show ?case by (simp add: reset_game_def)
qed

lemma accepted_1243: "length ''1243'' = 4" "isdigit ''1243''" "card (set ''1243'') = 4"
  "map_int ''1243'' = Inr [1, 2, 4, 3]"
  by (simp_all add: isdigit_def isdigit_char_def py_int_def card_insert_if)

lemma superscript_two: "length guess_123_sup2 = 4"
  "isdigit guess_123_sup2"
  "card (set guess_123_sup2) = 4"
  "map_int guess_123_sup2 = Inl ValueError"
  by (simp_all add: guess_123_sup2_def isdigit_def isdigit_char_def py_int_def card_insert_if)

lemma accepted_2143: "length ''2143'' = 4" "isdigit ''2143''" "card (set ''2143'') = 4"
  "map_int ''2143'' = Inr [2, 1, 4, 3]"
  by (simp_all add: isdigit_def isdigit_char_def py_int_def card_insert_if)

lemma accepted_5678: "length ''5678'' = 4" "isdigit ''5678''" "card (set ''5678'') = 4"
  "map_int ''5678'' = Inr [5, 6, 7, 8]"
  by (simp_all add: isdigit_def isdigit_char_def py_int_def card_insert_if)

lemma log2_size_length: "length xs = n \<Longrightarrow> 0 < n \<Longrightarrow> log2_size xs = log 2 (real n)"
  by (simp add: log2_size_def)

text \<open>One guess with feedback (2, 2) and one with feedback (0, 4), against the secret 1234.\<close>

lemma guess_1243:
  assumes "secret s = [1, 2, 3, 4]" "all_possible_guesses s = codes_1000_9999"
  defines "s' \<equiv> s\<lparr>attempts := attempts s + 1,
       valid_guesses := filter (\<lambda>v. calculate_bulls_and_cows s v = (2, 2)) codes_1000_9999\<rparr>"
  shows "process_guess s ''1243'' =
     (Inr (Feedback 2 2 (py_round (py_round (log2_size (valid_guesses s)) 2 - 258 / 100) 2)
        (258 / 100)), s')"
    and "length (valid_guesses s') = 6"
proof -
  have bc: "calculate_bulls_and_cows s [1, 2, 4, 3] = (2, 2)"
    using assms(1) by (simp add: bc_1234)
  show len: "length (valid_guesses s') = 6"
    using assms(1) by (simp add: s'_def class_2_2)
  have h: "py_round (log2_size (valid_guesses s')) 2 = 258 / 100"
    using log2_size_length[OF len] by (simp add: entropy_6)
  show "process_guess s ''1243'' =
     (Inr (Feedback 2 2 (py_round (py_round (log2_size (valid_guesses s)) 2 - 258 / 100) 2)
        (258 / 100)), s')"
  proof -
    have "s' = s\<lparr>attempts := attempts s + 1,
        valid_guesses := filter (\<lambda>v. calculate_bulls_and_cows s v = (2, 2))
                           (all_possible_guesses s)\<rparr>"
      by (simp add: s'_def assms(2))
    from process_guess_accepted[OF accepted_1243 bc this] show ?thesis
      unfolding h by simp
  qed
qed

lemma guess_2143:
  assumes "secret s = [1, 2, 3, 4]" "all_possible_guesses s = codes_1000_9999"
  defines "s' \<equiv> s\<lparr>attempts := attempts s + 1,
       valid_guesses := filter (\<lambda>v. calculate_bulls_and_cows s v = (0, 4)) codes_1000_9999\<rparr>"
  shows "process_guess s ''2143'' =
     (Inr (Feedback 0 4 (py_round (py_round (log2_size (valid_guesses s)) 2 - 317 / 100) 2)
        (317 / 100)), s')"
    and "length (valid_guesses s') = 9"
proof -
  have bc: "calculate_bulls_and_cows s [2, 1, 4, 3] = (0, 4)"
    using assms(1) by (simp add: bc_1234)
  show len: "length (valid_guesses s') = 9"
    using assms(1) by (simp add: s'_def class_0_4)
  have h: "py_round (log2_size (valid_guesses s')) 2 = 317 / 100"
    using log2_size_length[OF len] by (simp add: entropy_9)
  show "process_guess s ''2143'' =
     (Inr (Feedback 0 4 (py_round (py_round (log2_size (valid_guesses s)) 2 - 317 / 100) 2)
        (317 / 100)), s')"
  proof -
    have "s' = s\<lparr>attempts := attempts s + 1,
        valid_guesses := filter (\<lambda>v. calculate_bulls_and_cows s v = (0, 4))
                           (all_possible_guesses s)\<rparr>"
      by (simp add: s'_def assms(2))
    from process_guess_accepted[OF accepted_2143 bc this] show ?thesis
      unfolding h by simp
  qed
qed

subsection \<open>Facts about sessions\<close>

lemma bulls_le_length:
  "sum_list (map (\<lambda>(s, g). if s = g then 1 else 0) (zip xs ys)) \<le> int (length xs)"
proof (induction xs arbitrary: ys)
  case Nil
  then show ?case by simp
next
  case (Cons x xs)
  show ?case
  proof (cases ys)
    case Nil
    then show ?thesis by simp
  next
    case (Cons y zs)
    then show ?thesis using Cons.IH[of zs] by simp
  qed
qed

lemma bulls_eq_length_iff:
  "length xs = length ys \<Longrightarrow>
   sum_list (map (\<lambda>(s, g). if s = g then 1 else 0) (zip xs ys)) = int (length xs) \<longleftrightarrow> xs = ys"
proof (induction xs ys rule: list_induct2)
  case Nil
  then show ?case by simp
next
  case (Cons x xs y ys)
  then show ?case using bulls_le_length[of xs ys] by auto
qed

lemma map_int_length: "map_int g = Inr ds \<Longrightarrow> length ds = length g"
  by (induction g arbitrary: ds) (auto split: sum.splits)

lemma secret_score_differs:
  assumes "length (secret s) = length ds" "ds \<noteq> secret s"
  shows "calculate_bulls_and_cows s (secret s) \<noteq> calculate_bulls_and_cows s ds"
proof
  assume "calculate_bulls_and_cows s (secret s) = calculate_bulls_and_cows s ds"
  then have "sum_list (map (\<lambda>(s, g). if s = g then 1 else 0) (zip (secret s) (secret s)))
      = (sum_list (map (\<lambda>(s, g). if s = g then 1 else 0) (zip (secret s) ds)) :: int)"
    by (simp add: calculate_bulls_and_cows_def Let_def)
  moreover have "sum_list (map (\<lambda>(s, g). if s = g then 1 else 0) (zip (secret s) (secret s)))
      = int (length (secret s))"
    using bulls_eq_length_iff[of "secret s" "secret s"] by simp
  ultimately have "secret s = ds"
    using bulls_eq_length_iff[OF assms(1)] by simp
  then show False using assms(2) by simp
qed

lemma snd_process_guess_accepted:
  assumes "length g = 4" "isdigit g" "card (set g) = 4" "map_int g = Inr ds"
  shows "snd (process_guess s g) =
     s\<lparr>attempts := attempts s + 1,
       valid_guesses := filter (\<lambda>v. calculate_bulls_and_cows s v = calculate_bulls_and_cows s ds)
                          (all_possible_guesses s)\<rparr>"
proof -
  obtain bulls cows where bc: "calculate_bulls_and_cows s ds = (bulls, cows)"
    by (cases "calculate_bulls_and_cows s ds")
  show ?thesis
    using process_guess_accepted[OF assms bc refl] by (simp add: bc)
qed

lemma reset_game_universe: "all_possible_guesses (reset_game s sample) = all_possible_guesses s"
  by (simp add: reset_game_def)

lemma reachable_secret: "reachable s \<Longrightarrow> sample_range10_4 (secret s)"
proof (induction rule: reachable.induct)
  case (start sample s)
  then show ?case by (auto simp: init_new_game new_game_def)
next
  case (guess s g)
  then show ?case by (simp add: process_guess_secret)
next
  case (reset s sample)
  then show ?case by (simp add: reset_game_def)
qed

lemma reachable_new_game: "sample_range10_4 sample \<Longrightarrow> reachable (new_game sample)"
  by (rule reachable.start[of sample]) (simp_all add: init_new_game)

lemma sample_1234: "sample_range10_4 [1, 2, 3, 4]"
  by (simp add: sample_range10_4_def)

lemma set_codes_1000_9999:
  "v \<in> set codes_1000_9999 \<longleftrightarrow>
     (\<exists>a b c d. v = [a, b, c, d] \<and> 1 \<le> a \<and> a \<le> 9 \<and> 0 \<le> b \<and> b \<le> 9
        \<and> 0 \<le> c \<and> c \<le> 9 \<and> 0 \<le> d \<and> d \<le> 9 \<and> distinct [a, b, c, d])"
  unfolding codes_1000_9999_def code_if_distinct_def
  by (auto simp: set_digits_0_9 split: if_splits simp del: upto_rec_numeral)

lemma code_1234_in_universe: "[1, 2, 3, 4] \<in> set codes_1000_9999"
  by (simp add: set_codes_1000_9999)

lemma code_0123_not_in_universe: "[0, 1, 2, 3] \<notin> set codes_1000_9999"
  by (simp add: set_codes_1000_9999)

subsection \<open>Further facts used by the claims\<close>

lemma sample_0123: "sample_range10_4 [0, 1, 2, 3]"
  by (simp add: sample_range10_4_def)

lemma calculate_entropy_new_game: "calculate_entropy (new_game sample) = 1215 / 100"
proof -
  have "log2_size (valid_guesses (new_game sample)) = log 2 4536"
    using log2_size_length[of codes_1000_9999 4536]
    by (simp add: new_game_def length_codes_1000_9999)
  then show ?thesis by (simp add: calculate_entropy_log2_size entropy_4536)
qed

lemma sup2_not_decimal: "py_int (CHR 0xB2) = Inl ValueError" "isdigit_char (CHR 0xB2)"
  by (simp_all add: py_int_def isdigit_char_def)





section \<open>The claims\<close>

text \<open>
  Claim C1: after each processed guess the secret is a member of \<open>valid_guesses\<close>; it
  is never filtered out.

  The code does the opposite. \<open>update_valid_guesses\<close> keeps the candidates whose score
  against the secret equals the score of the guess against the secret; the secret scores
  four bulls against itself, so it is kept only when the guess is the secret. In every
  reachable session, every processed guess other than the secret removes the secret from
  \<open>valid_guesses\<close>. The witness is the session with secret 1234 and the guess 1243.
\<close>

theorem secret_filtered_out:
  assumes "reachable s"
    and "length g = 4" "isdigit g" "card (set g) = 4" "map_int g = Inr ds"
    and "ds \<noteq> secret s"
  shows "secret (snd (process_guess s g)) \<notin> set (valid_guesses (snd (process_guess s g)))"
proof -
  have "length (secret s) = length ds"
    using reachable_secret[OF assms(1)] map_int_length[OF assms(5)] assms(2)
    by (simp add: sample_range10_4_def)
  then have "calculate_bulls_and_cows s (secret s) \<noteq> calculate_bulls_and_cows s ds"
    using assms(6) by (rule secret_score_differs)
  then show ?thesis
    by (simp add: snd_process_guess_accepted[OF assms(2-5)])
qed

theorem secret_filtered_out_witness:
  "init [1, 2, 3, 4] = Inr (new_game [1, 2, 3, 4])
   \<and> map_int ''1243'' = Inr [1, 2, 4, 3]
   \<and> secret (snd (process_guess (new_game [1, 2, 3, 4]) ''1243'')) = [1, 2, 3, 4]
   \<and> [1, 2, 3, 4] \<notin> set (valid_guesses (snd (process_guess (new_game [1, 2, 3, 4]) ''1243'')))"
proof -
  have r: "reachable (new_game [1, 2, 3, 4])"
    by (rule reachable_new_game) (rule sample_1234)
  have d: "[1, 2, 4, 3] \<noteq> secret (new_game [1, 2, 3, 4])"
    by (simp add: new_game_def)
  note secret_filtered_out[OF r accepted_1243 d]
  moreover have "secret (snd (process_guess (new_game [1, 2, 3, 4]) ''1243'')) = [1, 2, 3, 4]"
    by (simp add: process_guess_secret new_game_def)
  ultimately show ?thesis
    using init_new_game accepted_1243(4) by simp
qed

text \<open>
  Claim C2: the filtering step recomputes \<open>valid_guesses\<close> as the universe codes \<open>c\<close>
  with \<open>bullsCows(G, c) = (bulls, cows)\<close>, each candidate taken as the hypothetical secret
  and scored against the submitted guess \<open>G\<close>, not against the true secret.

  The code scores each candidate against the true secret: \<open>update_valid_guesses\<close> never
  reads its parameter \<open>guess\<close>. The first statement is what the code computes; the
  second says that this list differs from the one of the claim whenever the guess is not
  the secret and the secret is in the universe (the claim's list holds the secret, the
  code's does not).
\<close>

theorem filter_scores_against_secret:
  assumes "reachable s"
    and "length g = 4" "isdigit g" "card (set g) = 4" "map_int g = Inr ds"
    and "ds \<noteq> secret s" "secret s \<in> set (all_possible_guesses s)"
  shows "valid_guesses (snd (process_guess s g)) =
      filter (\<lambda>c. calculate_bulls_and_cows s c = calculate_bulls_and_cows s ds)
        (all_possible_guesses s)
    \<and> valid_guesses (snd (process_guess s g)) \<noteq>
      filter (\<lambda>c. calculate_bulls_and_cows (s\<lparr>secret := c\<rparr>) ds = calculate_bulls_and_cows s ds)
        (all_possible_guesses s)"
proof -
  have code: "valid_guesses (snd (process_guess s g)) =
      filter (\<lambda>c. calculate_bulls_and_cows s c = calculate_bulls_and_cows s ds)
        (all_possible_guesses s)"
    by (simp add: snd_process_guess_accepted[OF assms(2-5)])
  have "length (secret s) = length ds"
    using reachable_secret[OF assms(1)] map_int_length[OF assms(5)] assms(2)
    by (simp add: sample_range10_4_def)
  then have "calculate_bulls_and_cows s (secret s) \<noteq> calculate_bulls_and_cows s ds"
    using assms(6) by (rule secret_score_differs)
  then have out: "secret s \<notin> set (valid_guesses (snd (process_guess s g)))"
    by (simp add: code)
  have "secret s \<in> set (filter (\<lambda>c. calculate_bulls_and_cows (s\<lparr>secret := c\<rparr>) ds
      = calculate_bulls_and_cows s ds) (all_possible_guesses s))"
    using assms(7) by simp
  then have "valid_guesses (snd (process_guess s g)) \<noteq>
      filter (\<lambda>c. calculate_bulls_and_cows (s\<lparr>secret := c\<rparr>) ds = calculate_bulls_and_cows s ds)
        (all_possible_guesses s)"
    using out by metis
  then show ?thesis using code by (rule_tac conjI)
qed

theorem filter_scores_against_secret_witness:
  "calculate_bulls_and_cows (new_game [1, 2, 3, 4]) [1, 2, 4, 3] = (2, 2)
   \<and> valid_guesses (snd (process_guess (new_game [1, 2, 3, 4]) ''1243'')) =
      filter (\<lambda>c. calculate_bulls_and_cows (new_game [1, 2, 3, 4]) c = (2, 2)) codes_1000_9999
   \<and> valid_guesses (snd (process_guess (new_game [1, 2, 3, 4]) ''1243'')) \<noteq>
      filter (\<lambda>c. calculate_bulls_and_cows (new_game [1, 2, 3, 4]\<lparr>secret := c\<rparr>) [1, 2, 4, 3] = (2, 2))
        codes_1000_9999"
proof -
  have r: "reachable (new_game [1, 2, 3, 4])"
    by (rule reachable_new_game) (rule sample_1234)
  have d: "[1, 2, 4, 3] \<noteq> secret (new_game [1, 2, 3, 4])"
    by (simp add: new_game_def)
  have m: "secret (new_game [1, 2, 3, 4]) \<in> set (all_possible_guesses (new_game [1, 2, 3, 4]))"
    by (simp add: new_game_def code_1234_in_universe)
  have bc: "calculate_bulls_and_cows (new_game [1, 2, 3, 4]) [1, 2, 4, 3] = (2, 2)"
    by (simp add: bc_1234 new_game_def)
  have u: "all_possible_guesses (new_game [1, 2, 3, 4]) = codes_1000_9999"
    by (simp add: new_game_def)
  note filter_scores_against_secret[OF r accepted_1243 d m]
  then have "valid_guesses (snd (process_guess (new_game [1, 2, 3, 4]) ''1243'')) =
      filter (\<lambda>c. calculate_bulls_and_cows (new_game [1, 2, 3, 4]) c = (2, 2)) codes_1000_9999
   \<and> valid_guesses (snd (process_guess (new_game [1, 2, 3, 4]) ''1243'')) \<noteq>
      filter (\<lambda>c. calculate_bulls_and_cows (new_game [1, 2, 3, 4]\<lparr>secret := c\<rparr>) [1, 2, 4, 3] = (2, 2))
        codes_1000_9999"
    unfolding bc u .
  then show ?thesis using bc by (rule_tac conjI)
qed

text \<open>
  Claim C3: the candidate universe produced by \<open>generate_possible_guesses\<close> has
  \<open>10 * 9 * 8 * 7 = 5040\<close> codes, those with a leading zero included, and a freshly
  constructed or reset session has 5040 candidates and entropy \<open>log2(5040)\<close>, about 12.30.

  The code keeps a number \<open>i\<close> when \<open>str(i)\<close>, without the padding of \<open>zfill\<close>, has four
  distinct characters, so no number below 1000 passes: the universe has
  \<open>9 * 9 * 8 * 7 = 4536\<close> codes and none starts with 0, although the secret can. A fresh
  or reset session has 4536 candidates and entropy 12.15.
\<close>

theorem universe_has_4536_codes:
  "generate_possible_guesses = Inr codes_1000_9999
   \<and> length codes_1000_9999 = 4536
   \<and> sample_range10_4 [0, 1, 2, 3]
   \<and> [0, 1, 2, 3] \<notin> set codes_1000_9999
   \<and> init [0, 1, 2, 3] = Inr (new_game [0, 1, 2, 3])
   \<and> length (valid_guesses (new_game [0, 1, 2, 3])) = 4536
   \<and> calculate_entropy (new_game [0, 1, 2, 3]) = 1215 / 100
   \<and> length (valid_guesses (reset_game (new_game [1, 2, 3, 4]) [0, 1, 2, 3])) = 4536
   \<and> calculate_entropy (reset_game (new_game [1, 2, 3, 4]) [0, 1, 2, 3]) = 1215 / 100"
proof -
  have "reset_game (new_game [1, 2, 3, 4]) [0, 1, 2, 3] = new_game [0, 1, 2, 3]"
    by (simp add: reset_game_def new_game_def)
  moreover have "length (valid_guesses (new_game [0, 1, 2, 3])) = 4536"
    by (simp add: new_game_def length_codes_1000_9999)
  ultimately show ?thesis
    using generate_possible_guesses_closed length_codes_1000_9999 sample_0123
      code_0123_not_in_universe init_new_game[of "[0, 1, 2, 3]"]
      calculate_entropy_new_game[of "[0, 1, 2, 3]"]
    by (simp only: simp_thms)
qed

text \<open>
  Claim C4: within one session the size of \<open>valid_guesses\<close> is non-increasing across
  successive processed guesses; the set never regrows.

  The code filters \<open>all_possible_guesses\<close> anew at every guess, so the size follows the
  latest feedback only. With secret 1234, the guess 1243 leaves 6 candidates and the next
  guess 2143 leaves 9.
\<close>

theorem candidate_set_regrows:
  assumes "reachable s" "secret s = [1, 2, 3, 4]"
  shows "length (valid_guesses (snd (process_guess s ''1243''))) = 6
    \<and> length (valid_guesses (snd (process_guess (snd (process_guess s ''1243'')) ''2143''))) = 9"
proof -
  let ?s1 = "snd (process_guess s ''1243'')"
  have u: "all_possible_guesses s = codes_1000_9999"
    using assms(1) by (rule reachable_universe)
  have "length (valid_guesses ?s1) = 6"
    using guess_1243[OF assms(2) u] by simp
  moreover have "secret ?s1 = [1, 2, 3, 4]" "all_possible_guesses ?s1 = codes_1000_9999"
    using assms(2) u by (simp_all add: process_guess_secret process_guess_universe)
  then have "length (valid_guesses (snd (process_guess ?s1 ''2143''))) = 9"
    using guess_2143[of ?s1] by simp
  ultimately show ?thesis by (rule conjI)
qed

theorem candidate_set_regrows_witness:
  "length (valid_guesses (snd (process_guess (new_game [1, 2, 3, 4]) ''1243'')))
    < length (valid_guesses (snd (process_guess (snd (process_guess (new_game [1, 2, 3, 4]) ''1243''))
        ''2143'')))"
proof -
  have "reachable (new_game [1, 2, 3, 4])"
    by (rule reachable_new_game) (rule sample_1234)
  moreover have "secret (new_game [1, 2, 3, 4]) = [1, 2, 3, 4]"
    by (simp add: new_game_def)
  ultimately show ?thesis
    using candidate_set_regrows[of "new_game [1, 2, 3, 4]"] by simp
qed

text \<open>
  Claim C5: the mutual information \<open>process_guess\<close> returns is at least 0 for every
  processed guess in a reachable state.

  With secret 1234, after the guess 1243 the guess 2143 returns the mutual information
  \<open>round(2.58 - 3.17, 2) = -0.59\<close>: the candidate list grew from 6 to 9 codes.
\<close>

theorem mutual_information_negative:
  assumes "reachable s" "secret s = [1, 2, 3, 4]"
  shows "fst (process_guess (snd (process_guess s ''1243'')) ''2143'')
    = Inr (Feedback 0 4 (- 59 / 100) (317 / 100))"
proof -
  let ?s1 = "snd (process_guess s ''1243'')"
  have u: "all_possible_guesses s = codes_1000_9999"
    using assms(1) by (rule reachable_universe)
  have len: "length (valid_guesses ?s1) = 6"
    using guess_1243[OF assms(2) u] by simp
  have prev: "py_round (log2_size (valid_guesses ?s1)) 2 = 258 / 100"
    using log2_size_length[OF len] by (simp add: entropy_6)
  have "secret ?s1 = [1, 2, 3, 4]" "all_possible_guesses ?s1 = codes_1000_9999"
    using assms(2) u by (simp_all add: process_guess_secret process_guess_universe)
  from guess_2143(1)[OF this] show ?thesis
    unfolding prev rounded_6_9 by simp
qed

theorem mutual_information_negative_witness:
  "fst (process_guess (snd (process_guess (new_game [1, 2, 3, 4]) ''1243'')) ''2143'')
    = Inr (Feedback 0 4 (- 59 / 100) (317 / 100)) \<and> - 59 / 100 < (0::real)"
proof -
  have "reachable (new_game [1, 2, 3, 4])"
    by (rule reachable_new_game) (rule sample_1234)
  moreover have "secret (new_game [1, 2, 3, 4]) = [1, 2, 3, 4]"
    by (simp add: new_game_def)
  ultimately show ?thesis
    using mutual_information_negative[of "new_game [1, 2, 3, 4]"] by simp
qed

text \<open>
  Claim C6: \<open>process_guess\<close> accepts a string if and only if it has exactly 4 characters,
  all decimal digits and pairwise distinct; any violation returns the validation message,
  leaves the state unmodified, and returns the same message at every resubmission.

  The string of \<open>guess_123_sup2\<close> violates the condition (superscript two is not a
  decimal digit: \<open>int\<close> refuses it), yet \<open>isdigit\<close> holds of it and the validation
  lets it through: the call does not return the validation message. The state is left as
  it was.
\<close>

theorem superscript_digit_not_rejected:
  "length guess_123_sup2 = 4 \<and> isdigit guess_123_sup2 \<and> card (set guess_123_sup2) = 4
   \<and> CHR 0xB2 \<in> set guess_123_sup2 \<and> py_int (CHR 0xB2) = Inl ValueError
   \<and> fst (process_guess s guess_123_sup2) \<noteq> Inr (Message ''Invalid Input: Enter 4 unique digits!'')
   \<and> snd (process_guess s guess_123_sup2) = s"
  using superscript_two sup2_not_decimal(1) process_guess_raises[OF superscript_two, of s]
  by (simp add: guess_123_sup2_def)

theorem superscript_digit_not_rejected_witness:
  "isdigit guess_123_sup2
   \<and> fst (process_guess (new_game [1, 2, 3, 4]) guess_123_sup2)
       \<noteq> Inr (Message ''Invalid Input: Enter 4 unique digits!'')"
  using superscript_digit_not_rejected[of "new_game [1, 2, 3, 4]"] by simp

text \<open>
  Claim C7: for every input string \<open>process_guess\<close> returns a validation message or a
  game result and never raises; every string that passes the validation converts to a
  code of four digits.

  On the string of \<open>guess_123_sup2\<close> the call raises \<open>ValueError\<close>, in every state: the
  string passes the validation and \<open>int\<close> refuses its last character.
\<close>

theorem process_guess_raises_ValueError:
  "process_guess s guess_123_sup2 = (Inl ValueError, s)"
  using superscript_two by (rule process_guess_raises)

theorem process_guess_raises_ValueError_witness:
  "fst (process_guess (new_game [1, 2, 3, 4]) guess_123_sup2) = Inl ValueError"
  using process_guess_raises_ValueError[of "new_game [1, 2, 3, 4]"] by simp

text \<open>
  Claim C8, as stated, fails: it says that the returned mutual information is
  \<open>round(previous_entropy - current_entropy, 2)\<close> for the unrounded logarithms of the
  candidate counts before and after the filtering. With secret 1234, the guess 2143
  leaves 9 candidates and the next guess 1243 leaves 6; the call returns the mutual
  information 0.59, and \<open>round(log2(9) - log2(6), 2)\<close> is 0.58.
\<close>

theorem rounding_before_subtraction_counterexample:
  "init [1, 2, 3, 4] = Inr (new_game [1, 2, 3, 4])
   \<and> length (valid_guesses (snd (process_guess (new_game [1, 2, 3, 4]) ''2143''))) = 9
   \<and> length (valid_guesses (snd (process_guess
        (snd (process_guess (new_game [1, 2, 3, 4]) ''2143'')) ''1243''))) = 6
   \<and> fst (process_guess (snd (process_guess (new_game [1, 2, 3, 4]) ''2143'')) ''1243'')
       = Inr (Feedback 2 2 (59 / 100) (258 / 100))
   \<and> py_round (log 2 9 - log 2 6) 2 = 58 / 100"
proof -
  let ?s0 = "new_game [1, 2, 3, 4]"
  let ?s1 = "snd (process_guess ?s0 ''2143'')"
  have s0: "secret ?s0 = [1, 2, 3, 4]" "all_possible_guesses ?s0 = codes_1000_9999"
    by (simp_all add: new_game_def)
  have len1: "length (valid_guesses ?s1) = 9"
    using guess_2143[OF s0] by simp
  have prev: "py_round (log2_size (valid_guesses ?s1)) 2 = 317 / 100"
    using log2_size_length[OF len1] by (simp add: entropy_9)
  have s1: "secret ?s1 = [1, 2, 3, 4]" "all_possible_guesses ?s1 = codes_1000_9999"
    using s0 by (simp_all add: process_guess_secret process_guess_universe)
  have len2: "length (valid_guesses (snd (process_guess ?s1 ''1243''))) = 6"
    using guess_1243[OF s1] by simp
  have "fst (process_guess ?s1 ''1243'') = Inr (Feedback 2 2 (59 / 100) (258 / 100))"
    using guess_1243(1)[OF s1] unfolding prev rounded_9_6 by simp
  then show ?thesis
    using init_new_game[of "[1, 2, 3, 4]"] len1 len2 unrounded_9_6 by (simp only: simp_thms)
qed

text \<open>
  Claim C8, amended: when \<open>process_guess\<close> returns a tuple, its mutual information is
  \<open>round(previous_entropy - current_entropy, 2)\<close> where \<open>previous_entropy\<close> and
  \<open>current_entropy\<close> are the values of \<open>calculate_entropy\<close> immediately before and after
  the filtering step, each the logarithm of the candidate count (0 for no candidate)
  already rounded to 2 decimal places; the returned entropy is that rounded
  \<open>current_entropy\<close>.
\<close>

theorem mutual_information_of_rounded_entropies:
  assumes "process_guess s g = (Inr (Feedback bulls cows mutual_information entropy), s')"
  shows "mutual_information =
      py_round (py_round (log2_size (valid_guesses s)) 2
                - py_round (log2_size (valid_guesses s')) 2) 2
    \<and> entropy = py_round (log2_size (valid_guesses s')) 2"
proof -
  have valid: "length g = 4" "isdigit g" "card (set g) = 4"
    using assms by (auto simp: process_guess_def split: if_splits)
  then obtain ds where ds: "map_int g = Inr ds"
    using assms by (cases "map_int g") (auto simp: process_guess_def)
  obtain b c where bc: "calculate_bulls_and_cows s ds = (b, c)"
    by (cases "calculate_bulls_and_cows s ds")
  from process_guess_accepted[OF valid ds bc refl] assms show ?thesis
    by (auto split: if_splits)
qed

theorem mutual_information_of_rounded_entropies_witness:
  "process_guess (new_game [1, 2, 3, 4]) ''2143'' =
     (Inr (Feedback 0 4 (898 / 100) (317 / 100)), snd (process_guess (new_game [1, 2, 3, 4]) ''2143''))
   \<and> py_round (log2_size (valid_guesses (new_game [1, 2, 3, 4]))) 2 = 1215 / 100
   \<and> py_round (log2_size (valid_guesses (snd (process_guess (new_game [1, 2, 3, 4]) ''2143'')))) 2
       = 317 / 100
   \<and> py_round (1215 / 100 - 317 / 100) 2 = 898 / 100"
proof -
  let ?s0 = "new_game [1, 2, 3, 4]"
  let ?s1 = "snd (process_guess ?s0 ''2143'')"
  have s0: "secret ?s0 = [1, 2, 3, 4]" "all_possible_guesses ?s0 = codes_1000_9999"
    by (simp_all add: new_game_def)
  have e0: "py_round (log2_size (valid_guesses ?s0)) 2 = 1215 / 100"
    using calculate_entropy_new_game[of "[1, 2, 3, 4]"] by (simp add: calculate_entropy_log2_size)
  have r: "py_round (1215 / 100 - 317 / 100) 2 = 898 / 100"
    using py_round_2_eq[of 898 "1215 / 100 - 317 / 100"] by simp
  have "process_guess ?s0 ''2143'' = (Inr (Feedback 0 4 (898 / 100) (317 / 100)), ?s1)"
    using guess_2143(1)[OF s0] unfolding e0 r by simp
  then show ?thesis
    using mutual_information_of_rounded_entropies[of ?s0 "''2143''" 0 4 "898 / 100" "317 / 100" ?s1]
      e0 r by simp
qed

text \<open>
  Claim C9: \<open>process_guess\<close> appends every validated guess to \<open>previous_guesses\<close>; after
  \<open>n\<close> validated guesses the history has length \<open>n\<close>.

  No call of \<open>process_guess\<close> changes \<open>previous_guesses\<close>: the field is set to the empty
  list by the constructor and by \<open>reset_game\<close> and is never appended to. After the
  validated guess 5678 in a fresh session the attempt counter is 1 and the history is
  empty.
\<close>

theorem history_never_appended:
  "previous_guesses (snd (process_guess s g)) = previous_guesses s"
  by (rule process_guess_history)

theorem history_never_appended_witness:
  "map_int ''5678'' = Inr [5, 6, 7, 8]
   \<and> attempts (snd (process_guess (new_game [1, 2, 3, 4]) ''5678'')) = 1
   \<and> previous_guesses (snd (process_guess (new_game [1, 2, 3, 4]) ''5678'')) = []"
proof -
  have "previous_guesses (new_game [1, 2, 3, 4]) = []"
    by (simp add: new_game_def)
  moreover have "attempts (snd (process_guess (new_game [1, 2, 3, 4]) ''5678'')) = 1"
    by (simp add: snd_process_guess_accepted[OF accepted_5678] new_game_def)
  ultimately show ?thesis
    using history_never_appended[of "new_game [1, 2, 3, 4]" "''5678''"] accepted_5678(4) by simp
qed




end
